theory Spec2Isabelle
  imports Complex_Main
begin

section \<open>Errors and tables\<close>

text \<open>
  The exceptions of the Python source that a caller can observe. Every
  \<^verbatim>\<open>raise\<close> (explicit or from a library call) is a value of this type.
\<close>

datatype error = KeyError | AttributeError | ValueError

text \<open>
  A cell of the table. \<open>NaN\<close> is the missing marker that \<^verbatim>\<open>pd.isna\<close> recognises;
  the other constructors are the value shapes of the data model: a string, a list of
  strings, an integer, and the per-day duration mapping (whose values may be
  \<^verbatim>\<open>None\<close>).
\<close>

datatype cell =
    NaN
  | Str string
  | StrList "string list"
  | Num int
  | Dict "(string \<times> int option) list"

fun isna :: "cell \<Rightarrow> bool" where
  "isna NaN = True"
| "isna _ = False"

text \<open>
  A \<^verbatim>\<open>pandas.DataFrame\<close>: the column names and the rows in stored order, each row
  paired with its index label. A table as the dataset compiler produces it carries
  the labels \<open>0, 1, \<dots>, n - 1\<close> (\<open>raw_index\<close>).
\<close>

record dataframe =
  columns :: "string list"
  rows :: "(nat \<times> (string \<Rightarrow> cell)) list"

definition labels :: "dataframe \<Rightarrow> nat list" where
  "labels df = map fst (rows df)"

definition raw_index :: "dataframe \<Rightarrow> bool" where
  "raw_index df \<longleftrightarrow> labels df = [0..<length (rows df)]"

text \<open>
  DataFrames are mutable objects handled by reference. The store maps a reference to
  the current contents of the object.
\<close>

type_synonym ref = nat
type_synonym heap = "ref \<Rightarrow> dataframe"

section \<open>removeEmptyObservations\<close>

text \<open>
  \<^verbatim>\<open>indic=[column for column in dataset.columns
          if column not in ['name','ratings','review_count']]\<close>
\<close>

definition indic_of :: "string list \<Rightarrow> string list" where
  "indic_of cols = filter (\<lambda>column. column \<notin> set [''name'', ''ratings'', ''review_count'']) cols"

text \<open>
  The test of line 111:
  \<^verbatim>\<open>(sum(pd.isna(dataset.loc[i,indic]))==12) & (dataset.review_count[i]==0)\<close>
  on the row \<open>r\<close> found under label \<open>i\<close>.
\<close>

definition empty_observation :: "string list \<Rightarrow> (string \<Rightarrow> cell) \<Rightarrow> bool" where
  "empty_observation indic r \<longleftrightarrow>
     length (filter (\<lambda>c. isna (r c)) indic) = 12 \<and> r ''review_count'' = Num 0"

text \<open>\<^verbatim>\<open>dataset.drop(i,inplace=True)\<close>: every row labelled \<open>i\<close> goes, labels are kept.\<close>

definition drop_label :: "nat \<Rightarrow> dataframe \<Rightarrow> dataframe" where
  "drop_label i df = df\<lparr>rows := filter (\<lambda>lr. fst lr \<noteq> i) (rows df)\<rparr>"

text \<open>
  The loop \<^verbatim>\<open>for i in range(len(dataset))\<close>; the range is fixed before the first
  iteration. \<^verbatim>\<open>dataset.loc[i,indic]\<close> is a lookup by label and raises
  \<^verbatim>\<open>KeyError\<close> when no row carries label \<open>i\<close>; \<^verbatim>\<open>dataset.review_count\<close> raises
  \<^verbatim>\<open>AttributeError\<close> when the table has no such column. The result is the
  exception, if any, together with the table as mutated so far. Labels are distinct
  in a raw table and in every table the loop makes of one.
\<close>

fun drop_loop :: "string list \<Rightarrow> nat list \<Rightarrow> dataframe \<Rightarrow> error option \<times> dataframe" where
  "drop_loop indic [] df = (None, df)"
| "drop_loop indic (i # is) df =
     (case map_of (rows df) i of
        None \<Rightarrow> (Some KeyError, df)
      | Some r \<Rightarrow>
          if ''review_count'' \<notin> set (columns df) then (Some AttributeError, df)
          else if empty_observation indic r then drop_loop indic is (drop_label i df)
          else drop_loop indic is df)"

text \<open>
  The method itself: it works on the object passed in and returns that same object.
\<close>

definition removeEmptyObservations :: "ref \<Rightarrow> heap \<Rightarrow> (error + ref) \<times> heap" where
  "removeEmptyObservations dataset h =
     (let df = h dataset;
          indic = indic_of (columns df);
          (e, df') = drop_loop indic [0..<length (rows df)] df
      in (case e of None \<Rightarrow> Inr dataset | Some err \<Rightarrow> Inl err, h(dataset := df')))"

text \<open>
  A raw table with fifteen columns, twelve of them besides \<^verbatim>\<open>name\<close>,
  \<^verbatim>\<open>ratings\<close> and \<^verbatim>\<open>review_count\<close>, as the constant of line 111 expects. Row 0
  has nothing but the three, with no reviews; row 1 has nothing but the three, with
  five reviews; row 2 has no reviews but a district.
\<close>

definition example_columns :: "string list" where
  "example_columns =
     [''name'', ''address'', ''district'', ''ratings'', ''review_count'', ''opening_hours'',
      ''opening_hours_span'', ''payment_methods'', ''products'', ''services'', ''marks'',
      ''phones'', ''email_address'', ''extra_1'', ''extra_2'']"

definition bare_row :: "string \<Rightarrow> int \<Rightarrow> int \<Rightarrow> string \<Rightarrow> cell" where
  "bare_row n rt rc =
     (\<lambda>c. NaN)(''name'' := Str n, ''ratings'' := Num rt, ''review_count'' := Num rc)"

definition example_raw :: dataframe where
  "example_raw = \<lparr>columns = example_columns,
     rows = [(0, bare_row ''A'' 0 0), (1, bare_row ''B'' 80 5),
             (2, (bare_row ''C'' 0 0)(''district'' := Str ''Praha 1''))]\<rparr>"

text \<open>The same three rows with the one that has nothing in last place.\<close>

definition example_trailing :: dataframe where
  "example_trailing = \<lparr>columns = example_columns,
     rows = [(0, bare_row ''B'' 80 5),
             (1, (bare_row ''C'' 0 0)(''district'' := Str ''Praha 1'')),
             (2, bare_row ''A'' 0 0)]\<rparr>"



section \<open>Dictionaries and counters\<close>

text \<open>
  A Python \<^verbatim>\<open>dict\<close> keeps its keys in insertion order, and the order is what the
  sorting of the counts is about, so a dictionary is an association list with
  distinct keys. \<open>setitem\<close> is \<^verbatim>\<open>d[k] = v\<close>: an existing key keeps its place, a new
  key goes to the end.
\<close>

fun setitem :: "'k \<Rightarrow> 'v \<Rightarrow> ('k \<times> 'v) list \<Rightarrow> ('k \<times> 'v) list" where
  "setitem k v [] = [(k, v)]"
| "setitem k v ((k', v') # d) = (if k' = k then (k, v) # d else (k', v') # setitem k v d)"

text \<open>\<^verbatim>\<open>Counter(xs)\<close>: for each element in turn, \<^verbatim>\<open>c[x] = c.get(x, 0) + 1\<close>.\<close>

definition count_elem :: "'k \<Rightarrow> ('k \<times> int) list \<Rightarrow> ('k \<times> int) list" where
  "count_elem x c = setitem x ((case map_of c x of None \<Rightarrow> 0 | Some n \<Rightarrow> n) + 1) c"

definition Counter :: "'k list \<Rightarrow> ('k \<times> int) list" where
  "Counter xs = fold count_elem xs []"

section \<open>getDistrictCounts\<close>

text \<open>
  The method reads the column \<^verbatim>\<open>dataset.district\<close>, whose entries are a string or
  missing. \<^verbatim>\<open>value_counts()\<close> leaves the missing entries out and orders the counts
  from the highest down; among equal counts the order is pandas' own, here that of
  first occurrence.
\<close>

definition value_counts :: "string option list \<Rightarrow> (string \<times> int) list" where
  "value_counts col = sort_key (\<lambda>kv. - snd kv) (Counter (List.map_filter id col))"

text \<open>
  \<^verbatim>\<open>Series.drop(label, inplace=True)\<close> raises \<^verbatim>\<open>KeyError\<close> when the label is not
  in the index.
\<close>

definition series_drop :: "string \<Rightarrow> (string \<times> int) list \<Rightarrow> error + (string \<times> int) list" where
  "series_drop label s =
     (if label \<in> fst ` set s then Inr (filter (\<lambda>kv. fst kv \<noteq> label) s) else Inl KeyError)"

definition getDistrictCounts :: "string option list \<Rightarrow> error + (string \<times> int) list" where
  "getDistrictCounts district = series_drop ''Not found'' (value_counts district)"

section \<open>getArrayOfSumsOfOpeningHoursSpans\<close>

text \<open>
  An element of the list and of the array built from it: \<^verbatim>\<open>np.NaN\<close> or a sum of
  durations.
\<close>

datatype entry = nan | number int

text \<open>
  \<^verbatim>\<open>sum(filter(None,list(dict.values())))\<close>: \<^verbatim>\<open>filter(None, ...)\<close> keeps the
  truthy values, so \<^verbatim>\<open>None\<close> and \<open>0\<close> go.
\<close>

definition truthy :: "int option \<Rightarrow> int option" where
  "truthy v = (case v of None \<Rightarrow> None | Some n \<Rightarrow> if n = 0 then None else Some n)"

definition sum_of_spans :: "(string \<times> int option) list \<Rightarrow> int" where
  "sum_of_spans dict = sum_list (List.map_filter truthy (map snd dict))"

text \<open>
  The method reads the column \<^verbatim>\<open>dataset.opening_hours_span\<close>, whose entries are the
  per-day mapping or missing. \<^verbatim>\<open>np.array\<close> of a list that holds a \<^verbatim>\<open>NaN\<close>, and of
  the empty list, is an array of floats; of a non-empty list of Python integers it is
  an array of integers, and the assignment of \<^verbatim>\<open>np.nan\<close> into an integer array on
  line 182 raises \<^verbatim>\<open>ValueError\<close> (cannot convert float NaN to integer).
\<close>

definition getArrayOfSumsOfOpeningHoursSpans ::
    "(string \<times> int option) list option list \<Rightarrow> error + entry list" where
  "getArrayOfSumsOfOpeningHoursSpans opening_hours_span =
     (let list_of_sums =
            map (\<lambda>dict. case dict of None \<Rightarrow> nan | Some d \<Rightarrow> number (sum_of_spans d))
              opening_hours_span
      in if list_of_sums \<noteq> [] \<and> nan \<notin> set list_of_sums then Inl ValueError
         else Inr (map (\<lambda>v. if v = number 0 then nan else v) list_of_sums))"

section \<open>interpretReviewsAndRatings\<close>

text \<open>
  The method reads the columns \<^verbatim>\<open>ratings\<close> and \<^verbatim>\<open>review_count\<close> of
  \<^verbatim>\<open>self.dataset\<close>, row by row. What it prints is returned as a record; the mean
  is the exact quotient (the rounding to two decimals is left out), and the histogram
  is not modelled.
\<close>

record review_row =
  ratings :: int
  review_count :: int

record review_report =
  with_reviews :: int
  highest_reviews :: int
  highest_reviews_rows :: int
  mean_rating :: rat
  lowest_rating :: int
  lowest_rating_rows :: int
  highest_rating :: int
  highest_rating_rows :: int

text \<open>Python's \<^verbatim>\<open>min\<close> and \<^verbatim>\<open>max\<close> raise \<^verbatim>\<open>ValueError\<close> on an empty sequence.\<close>

fun py_min :: "int list \<Rightarrow> error + int" where
  "py_min [] = Inl ValueError"
| "py_min (x # xs) = Inr (fold min xs x)"

fun py_max :: "int list \<Rightarrow> error + int" where
  "py_max [] = Inl ValueError"
| "py_max (x # xs) = Inr (fold max xs x)"

definition interpretReviewsAndRatings :: "review_row list \<Rightarrow> error + review_report" where
  "interpretReviewsAndRatings dataset =
     (let available_ratings = map ratings (filter (\<lambda>r. review_count r \<noteq> 0) dataset)
      in case py_max (map review_count dataset) of
           Inl e \<Rightarrow> Inl e
         | Inr most \<Rightarrow>
             (case py_min available_ratings of
                Inl e \<Rightarrow> Inl e
              | Inr lo \<Rightarrow>
                  (case py_max available_ratings of
                     Inl e \<Rightarrow> Inl e
                   | Inr hi \<Rightarrow>
                       Inr \<lparr>with_reviews = int (length (filter (\<lambda>r. review_count r \<noteq> 0) dataset)),
                            highest_reviews = most,
                            highest_reviews_rows =
                              int (length (filter (\<lambda>r. review_count r = most) dataset)),
                            mean_rating =
                              of_int (sum_list available_ratings)
                                / of_int (int (length available_ratings)),
                            lowest_rating = lo,
                            lowest_rating_rows =
                              int (length (filter (\<lambda>r. ratings r = lo) dataset)),
                            highest_rating = hi,
                            highest_rating_rows =
                              int (length (filter (\<lambda>r. ratings r = hi) dataset))\<rparr>)))"

definition example_reviews :: "review_row list" where
  "example_reviews =
     [\<lparr>ratings = 0, review_count = 0\<rparr>, \<lparr>ratings = 0, review_count = 3\<rparr>,
      \<lparr>ratings = 50, review_count = 2\<rparr>]"

section \<open>getEmailProvidersCounts\<close>

text \<open>
  \<^verbatim>\<open>re.search('@.*\.',email)\<close>. At a given start the pattern wants an \<open>@\<close>, then
  \<^verbatim>\<open>.*\<close> takes as many characters other than a newline as there are, and gives
  them back one at a time until the next character is a dot. \<open>dot_star_dot k s\<close>
  tries \<^verbatim>\<open>.*\<close> with \<open>k\<close> characters of \<open>s\<close>, then \<open>k - 1\<close>, down to none, and returns
  what \<^verbatim>\<open>.*\.\<close> matched.
\<close>

fun dot_star_dot :: "nat \<Rightarrow> string \<Rightarrow> string option" where
  "dot_star_dot 0 s = (if 0 < length s \<and> s ! 0 = CHR ''.'' then Some (take 1 s) else None)"
| "dot_star_dot (Suc k) s =
     (if Suc k < length s \<and> s ! Suc k = CHR ''.'' then Some (take (Suc (Suc k)) s)
      else dot_star_dot k s)"

definition match_here :: "string \<Rightarrow> string option" where
  "match_here s =
     (case s of
        [] \<Rightarrow> None
      | c # rest \<Rightarrow>
          if c = CHR ''@''
          then map_option ((#) c)
                 (dot_star_dot (length (takeWhile (\<lambda>x. x \<noteq> CHR 0x0A) rest)) rest)
          else None)"

text \<open>\<^verbatim>\<open>re.search\<close> takes the match at the leftmost start that has one.\<close>

fun re_search :: "string \<Rightarrow> string option" where
  "re_search [] = None"
| "re_search (c # cs) =
     (case match_here (c # cs) of Some m \<Rightarrow> Some m | None \<Rightarrow> re_search cs)"

text \<open>
  The body of the \<^verbatim>\<open>try\<close>: \<^verbatim>\<open>re.search\<close> returns \<^verbatim>\<open>None\<close> when nothing matches,
  and \<^verbatim>\<open>.group(0)\<close> on \<^verbatim>\<open>None\<close> raises \<^verbatim>\<open>AttributeError\<close>. A match has at least
  the two characters \<open>@\<close> and \<open>.\<close>, so the slice \<^verbatim>\<open>value[1:len(value)-1]\<close> is
  everything but the first and the last character.
\<close>

definition find_provider :: "string \<Rightarrow> error + string" where
  "find_provider email =
     (case re_search email of
        None \<Rightarrow> Inl AttributeError
      | Some v \<Rightarrow> Inr (drop 1 (take (length v - 1) v)))"

text \<open>
  The loop over the column \<^verbatim>\<open>dataset.email_address\<close>, whose entries are a string
  or missing; the handler is \<^verbatim>\<open>except ValueError\<close>, any other exception leaves the
  method.
\<close>

fun email_loop :: "string option list \<Rightarrow> string list \<Rightarrow> error + string list" where
  "email_loop [] email_providers = Inr email_providers"
| "email_loop (None # rest) email_providers = email_loop rest email_providers"
| "email_loop (Some email # rest) email_providers =
     (case find_provider email of
        Inr provider \<Rightarrow> email_loop rest (email_providers @ [provider])
      | Inl ValueError \<Rightarrow> email_loop rest email_providers
      | Inl e \<Rightarrow> Inl e)"

definition getEmailProvidersCounts :: "string option list \<Rightarrow> error + (string \<times> int) list" where
  "getEmailProvidersCounts email_address =
     (case email_loop email_address [] of
        Inl e \<Rightarrow> Inl e
      | Inr email_providers \<Rightarrow>
          (let email_providers_counts = Counter email_providers;
               with_own = setitem ''Own domain''
                            (int (count_list (map snd email_providers_counts) 1))
                            email_providers_counts;
               values_sorted = sort_key snd with_own
           in Inr (fold (\<lambda>kv d. setitem (fst kv) (snd kv) d) values_sorted [])))"

section \<open>showRows\<close>

text \<open>
  \<^verbatim>\<open>DataFrame.head(n)\<close> is \<^verbatim>\<open>iloc[:n]\<close>; \<^verbatim>\<open>DataFrame.tail(n)\<close> is the empty
  frame for \<open>n = 0\<close> and \<^verbatim>\<open>iloc[-n:]\<close> otherwise. A slice bound beyond either end of
  the table is clamped to it.
\<close>

definition df_head :: "int \<Rightarrow> dataframe \<Rightarrow> dataframe" where
  "df_head n df =
     df\<lparr>rows := (if 0 \<le> n then take (nat n) (rows df)
                 else take (nat (max 0 (int (length (rows df)) + n))) (rows df))\<rparr>"

definition df_tail :: "int \<Rightarrow> dataframe \<Rightarrow> dataframe" where
  "df_tail n df =
     df\<lparr>rows := (if n = 0 then []
                 else if 0 < n then drop (nat (max 0 (int (length (rows df)) - n))) (rows df)
                 else drop (nat (- n)) (rows df))\<rparr>"

text \<open>
  The conversion \<^verbatim>\<open>int(no_of_rows)\<close> is Python's own and is taken as the parameter
  \<open>to_int\<close>, \<open>None\<close> where it raises; the bare \<^verbatim>\<open>except\<close> turns whatever it raises
  into \<^verbatim>\<open>ValueError\<close>.
\<close>

definition showRows :: "('a \<Rightarrow> int option) \<Rightarrow> dataframe \<Rightarrow> 'a \<Rightarrow> error + dataframe" where
  "showRows to_int dataset no_of_rows =
     (case to_int no_of_rows of
        None \<Rightarrow> Inl ValueError
      | Some n \<Rightarrow> Inr (if 0 \<le> n then df_head n dataset else df_tail (abs n) dataset))"

section \<open>Properties of the filter\<close>

lemma drop_loop_present:
  assumes "distinct (map fst (rows df))" "distinct is" "set is \<subseteq> fst ` set (rows df)"
    "''review_count'' \<in> set (columns df)"
  shows "drop_loop indic is df =
    (None, df\<lparr>rows := filter (\<lambda>lr. \<not> (fst lr \<in> set is \<and> empty_observation indic (snd lr))) (rows df)\<rparr>)"
  using assms
proof (induction "is" arbitrary: df)
  case Nil
  then show ?case by simp
next
  case (Cons i "is")
  from Cons.prems obtain r where r: "map_of (rows df) i = Some r"
    by (metis list.set_intros(1) map_of_eq_None_iff not_Some_eq subsetD)
  have ri: "(i, r) \<in> set (rows df)" using r by (rule map_of_SomeD)
  have uniq: "\<And>l r'. (l, r') \<in> set (rows df) \<Longrightarrow> l = i \<Longrightarrow> r' = r"
    using Cons.prems(1) r by (metis map_of_is_SomeI option.inject)
  show ?case
  proof (cases "empty_observation indic r")
    case True
    let ?df = "drop_label i df"
    have d: "distinct (map fst (rows ?df))"
      using Cons.prems(1) by (simp add: drop_label_def distinct_map_filter)
    have s: "set is \<subseteq> fst ` set (rows ?df)"
    proof
      fix x assume x: "x \<in> set is"
      then have "x \<noteq> i" using Cons.prems(2) by auto
      moreover from x Cons.prems(3) obtain b where "(x, b) \<in> set (rows df)" by force
      ultimately show "x \<in> fst ` set (rows ?df)" by (force simp: drop_label_def)
    qed
    have c: "''review_count'' \<in> set (columns ?df)"
      using Cons.prems(4) by (simp add: drop_label_def)
    have "drop_loop indic (i # is) df = drop_loop indic is ?df"
      using r True Cons.prems(4) by simp
    also have "\<dots> = (None, ?df\<lparr>rows := filter (\<lambda>lr. \<not> (fst lr \<in> set is \<and> empty_observation indic (snd lr))) (rows ?df)\<rparr>)"
      using Cons.IH[OF d _ s c] Cons.prems(2) by simp
    also have "filter (\<lambda>lr. \<not> (fst lr \<in> set is \<and> empty_observation indic (snd lr))) (rows ?df)
       = filter (\<lambda>lr. \<not> (fst lr \<in> set (i # is) \<and> empty_observation indic (snd lr))) (rows df)"
      unfolding drop_label_def using True uniq
      by (auto intro!: filter_cong simp: )
    finally show ?thesis by (simp add: drop_label_def)
  next
    case False
    have s: "set is \<subseteq> fst ` set (rows df)" using Cons.prems(3) by simp
    have "drop_loop indic (i # is) df = drop_loop indic is df"
      using r False Cons.prems(4) by simp
    also have "\<dots> = (None, df\<lparr>rows := filter (\<lambda>lr. \<not> (fst lr \<in> set is \<and> empty_observation indic (snd lr))) (rows df)\<rparr>)"
      using Cons.IH[OF Cons.prems(1) _ s Cons.prems(4)] Cons.prems(2) by simp
    also have "filter (\<lambda>lr. \<not> (fst lr \<in> set is \<and> empty_observation indic (snd lr))) (rows df)
       = filter (\<lambda>lr. \<not> (fst lr \<in> set (i # is) \<and> empty_observation indic (snd lr))) (rows df)"
      using False uniq by (auto intro!: filter_cong)
    finally show ?thesis .
  qed
qed

lemma drop_loop_kept:
  assumes "\<forall>lr \<in> set (rows df). \<not> empty_observation indic (snd lr)"
    "''review_count'' \<in> set (columns df)"
  shows "drop_loop indic is df =
    (if set is \<subseteq> fst ` set (rows df) then None else Some KeyError, df)"
  using assms
proof (induction "is")
  case Nil
  then show ?case by simp
next
  case (Cons i "is")
  show ?case
  proof (cases "map_of (rows df) i")
    case None
    then have "i \<notin> fst ` set (rows df)" by (simp add: map_of_eq_None_iff)
    then show ?thesis using None by auto
  next
    case (Some r)
    then have "(i, r) \<in> set (rows df)" by (rule map_of_SomeD)
    then have "\<not> empty_observation indic r" "i \<in> fst ` set (rows df)"
      using Cons.prems(1) by force+
    then show ?thesis using Some Cons by simp
  qed
qed


lemma removeEmptyObservations_raw:
  assumes "raw_index (h d)" "''review_count'' \<in> set (columns (h d)) \<or> rows (h d) = []"
  shows "removeEmptyObservations d h =
    (Inr d, h(d := (h d)\<lparr>rows := filter (\<lambda>lr. \<not> empty_observation (indic_of (columns (h d))) (snd lr)) (rows (h d))\<rparr>))"
proof (cases "rows (h d) = []")
  case True
  then have e: "(h d)\<lparr>rows := []\<rparr> = h d" by (cases "h d") simp
  have "removeEmptyObservations d h = (Inr d, h(d := h d))"
    by (simp add: removeEmptyObservations_def True)
  then show ?thesis by (simp add: True e)
next
  case False
  with assms have c: "''review_count'' \<in> set (columns (h d))" by simp
  have l: "map fst (rows (h d)) = [0..<length (rows (h d))]"
    using assms(1) by (simp add: raw_index_def labels_def)
  have d: "distinct (map fst (rows (h d)))" by (subst l) simp
  have s: "set [0..<length (rows (h d))] \<subseteq> fst ` set (rows (h d))"
    using l by (metis set_map subset_refl)
  have m: "\<And>lr. lr \<in> set (rows (h d)) \<Longrightarrow> fst lr \<in> set [0..<length (rows (h d))]"
    using l by (metis imageI set_map)
  have f: "filter (\<lambda>lr. \<not> (fst lr \<in> set [0..<length (rows (h d))] \<and> empty_observation (indic_of (columns (h d))) (snd lr))) (rows (h d))
     = filter (\<lambda>lr. \<not> empty_observation (indic_of (columns (h d))) (snd lr)) (rows (h d))"
    using m by (auto intro!: filter_cong)
  have "drop_loop (indic_of (columns (h d))) [0..<length (rows (h d))] (h d) =
      (None, (h d)\<lparr>rows := filter (\<lambda>lr. \<not> empty_observation (indic_of (columns (h d))) (snd lr)) (rows (h d))\<rparr>)"
    by (simp only: drop_loop_present[OF d distinct_upt s c] f)
  then show ?thesis
    by (simp add: removeEmptyObservations_def Let_def)
qed

lemma upt_sublist_prefix:
  assumes "sorted_wrt (<) xs"
  shows "set [0..<length xs] \<subseteq> set xs \<longleftrightarrow> xs = [0..<length xs]"
proof
  assume a: "set [0..<length xs] \<subseteq> set xs"
  have dx: "distinct xs" using assms by (simp add: strict_sorted_iff)
  have "card (set xs) = length xs" using dx by (simp add: distinct_card)
  then have "set [0..<length xs] = set xs"
    using a by (intro card_subset_eq) auto
  moreover have "sorted xs" using assms by (simp add: strict_sorted_iff)
  ultimately show "xs = [0..<length xs]"
    using dx by (metis sorted_distinct_set_unique sorted_upt distinct_upt)
next
  assume "xs = [0..<length xs]"
  then show "set [0..<length xs] \<subseteq> set xs" by simp
qed


lemma returned_filter:
  assumes "raw_index (h d)" "fst (removeEmptyObservations d h) = Inr t"
  shows "t = d \<and> removeEmptyObservations d h =
    (Inr d, h(d := (h d)\<lparr>rows := filter (\<lambda>lr. \<not> empty_observation (indic_of (columns (h d))) (snd lr)) (rows (h d))\<rparr>))
    \<and> (''review_count'' \<in> set (columns (h d)) \<or> rows (h d) = [])"
proof -
  let ?indic = "indic_of (columns (h d))"
  have c: "''review_count'' \<in> set (columns (h d)) \<or> rows (h d) = []"
  proof (rule ccontr)
    assume n: "\<not> ?thesis"
    then obtain lr rs where rs: "rows (h d) = lr # rs" by (cases "rows (h d)") auto
    have "map fst (rows (h d)) = [0..<length (rows (h d))]"
      using assms(1) by (simp add: raw_index_def labels_def)
    then have "hd (map fst (rows (h d))) = hd [0..<length (rows (h d))]" by simp
    then have "fst lr = 0" using rs by (simp add: hd_upt del: upt_Suc)
    then have "map_of (rows (h d)) 0 = Some (snd lr)" using rs by (cases lr) simp
    moreover have "[0..<length (rows (h d))] = 0 # [1..<length (rows (h d))]"
      using rs by (simp add: upt_conv_Cons del: upt_Suc)
    ultimately have "drop_loop ?indic [0..<length (rows (h d))] (h d) = (Some AttributeError, h d)"
      using n by simp
    then have "fst (removeEmptyObservations d h) = Inl AttributeError"
      by (simp add: removeEmptyObservations_def)
    with assms(2) show False by simp
  qed
  have first: "removeEmptyObservations d h =
      (Inr d, h(d := (h d)\<lparr>rows := filter (\<lambda>lr. \<not> empty_observation ?indic (snd lr)) (rows (h d))\<rparr>))"
    using assms(1) c by (rule removeEmptyObservations_raw)
  then have "t = d" using assms(2) by simp
  with first c show ?thesis by simp
qed






section \<open>Properties of the pattern match\<close>

lemma dot_star_dot_last:
  assumes "CHR ''.'' \<notin> set post" "length mid \<le> k"
  shows "dot_star_dot k (mid @ CHR ''.'' # post) = Some (mid @ ''.'')"
  using assms(2)
proof (induction k)
  case 0
  then show ?case by simp
next
  case (Suc k)
  show ?case
  proof (cases "Suc k = length mid")
    case True
    have "Suc k < length (mid @ CHR ''.'' # post)" "(mid @ CHR ''.'' # post) ! Suc k = CHR ''.''"
      "take (Suc (Suc k)) (mid @ CHR ''.'' # post) = mid @ ''.''"
      by (simp_all add: True)
    then show ?thesis by (simp only: dot_star_dot.simps if_True simp_thms)
  next
    case False
    with Suc.prems have le: "length mid \<le> k" by simp
    have "\<not> (Suc k < length (mid @ CHR ''.'' # post) \<and> (mid @ CHR ''.'' # post) ! Suc k = CHR ''.'')"
    proof
      assume a: "Suc k < length (mid @ CHR ''.'' # post) \<and> (mid @ CHR ''.'' # post) ! Suc k = CHR ''.''"
      then have "Suc k < length mid + Suc (length post)" by simp
      then have "k - length mid < length post" using le by arith
      moreover have "(mid @ CHR ''.'' # post) ! Suc k = post ! (k - length mid)"
        using le by (simp add: nth_append Suc_diff_le)
      ultimately have "(mid @ CHR ''.'' # post) ! Suc k \<in> set post" by simp
      with a assms(1) show False by simp
    qed
    then have "dot_star_dot (Suc k) (mid @ CHR ''.'' # post) = dot_star_dot k (mid @ CHR ''.'' # post)"
      by (simp only: dot_star_dot.simps if_False)
    then show ?thesis using Suc.IH[OF le] by simp
  qed
qed

lemma match_here_at:
  assumes "CHR 0x0A \<notin> set mid" "CHR ''.'' \<notin> set post"
  shows "match_here (CHR ''@'' # mid @ CHR ''.'' # post) = Some (CHR ''@'' # mid @ ''.'')"
proof -
  have "takeWhile (\<lambda>x. x \<noteq> CHR 0x0A) (mid @ CHR ''.'' # post)
      = mid @ takeWhile (\<lambda>x. x \<noteq> CHR 0x0A) (CHR ''.'' # post)"
    using assms(1) by (intro takeWhile_append2) auto
  then have "length mid \<le> length (takeWhile (\<lambda>x. x \<noteq> CHR 0x0A) (mid @ CHR ''.'' # post))"
    by simp
  from dot_star_dot_last[OF assms(2) this] show ?thesis
    by (simp add: match_here_def)
qed

lemma re_search_skip:
  assumes "CHR ''@'' \<notin> set pre"
  shows "re_search (pre @ s) = re_search s"
  using assms by (induction pre) (auto simp: match_here_def)

lemma re_search_last_dot:
  assumes "CHR ''@'' \<notin> set pre" "CHR 0x0A \<notin> set mid" "CHR ''.'' \<notin> set post"
  shows "re_search (pre @ ''@'' @ mid @ ''.'' @ post) = Some (''@'' @ mid @ ''.'')"
  using re_search_skip[OF assms(1)] match_here_at[OF assms(2,3)] by simp


section \<open>Properties of dictionaries and counters\<close>

lemma map_of_setitem: "map_of (setitem k v d) = (map_of d)(k \<mapsto> v)"
  by (induction d) (auto simp: fun_eq_iff)

lemma keys_setitem_old: "k \<in> set (map fst d) \<Longrightarrow> map fst (setitem k v d) = map fst d"
  by (induction d) force+

lemma keys_setitem_new: "k \<notin> set (map fst d) \<Longrightarrow> map fst (setitem k v d) = map fst d @ [k]"
  by (induction d) auto

lemma distinct_setitem: "distinct (map fst d) \<Longrightarrow> distinct (map fst (setitem k v d))"
  by (cases "k \<in> set (map fst d)") (simp_all add: keys_setitem_old keys_setitem_new)

lemma setitem_fresh: "k \<notin> set (map fst d) \<Longrightarrow> setitem k v d = d @ [(k, v)]"
  by (induction d) auto

lemma Counter_snoc: "Counter (xs @ [x]) = count_elem x (Counter xs)"
  by (simp add: Counter_def)

lemma distinct_Counter: "distinct (map fst (Counter xs))"
  by (induction xs rule: rev_induct)
     (simp_all add: Counter_def count_elem_def distinct_setitem)

lemma map_of_Counter:
  "map_of (Counter xs) p = (if p \<in> set xs then Some (int (count_list xs p)) else None)"
proof (induction xs arbitrary: p rule: rev_induct)
  case Nil
  then show ?case by (simp add: Counter_def)
next
  case (snoc x xs)
  then show ?case
    by (simp add: Counter_snoc count_elem_def map_of_setitem)
qed

lemma count_list_values:
  "count_list (map snd d) v = length (filter (\<lambda>kv. snd kv = v) d)"
  by (induction d) auto

lemma set_Counter: "set (Counter xs) = (\<lambda>p. (p, int (count_list xs p))) ` set xs"
proof -
  have d: "distinct (map fst (Counter xs))" by (rule distinct_Counter)
  note m = map_of_Counter[of xs]
  show ?thesis
  proof (intro set_eqI iffI)
    fix kv assume "kv \<in> set (Counter xs)"
    then have "map_of (Counter xs) (fst kv) = Some (snd kv)"
      using d by (metis map_of_is_SomeI prod.collapse)
    then show "kv \<in> (\<lambda>p. (p, int (count_list xs p))) ` set xs"
      unfolding m by (cases kv) (auto split: if_splits)
  next
    fix kv assume "kv \<in> (\<lambda>p. (p, int (count_list xs p))) ` set xs"
    then obtain p where p: "p \<in> set xs" "kv = (p, int (count_list xs p))" by auto
    then have "map_of (Counter xs) p = Some (int (count_list xs p))" by (simp add: m)
    then show "kv \<in> set (Counter xs)" using p by (simp add: map_of_SomeD)
  qed
qed

lemma count_of_ones:
  "count_list (map snd (Counter xs)) 1 = card {p \<in> set xs. count_list xs p = 1}"
proof -
  have d: "distinct (Counter xs)"
    using distinct_Counter[of xs] by (simp add: distinct_map)
  have "count_list (map snd (Counter xs)) 1 = length (filter (\<lambda>kv. snd kv = 1) (Counter xs))"
    by (rule count_list_values)
  also have "\<dots> = card ({kv. snd kv = 1} \<inter> set (Counter xs))"
    using d by (rule distinct_length_filter)
  also have "{kv. snd kv = 1} \<inter> set (Counter xs)
      = (\<lambda>p. (p, 1)) ` {p \<in> set xs. count_list xs p = 1}"
    unfolding set_Counter by auto
  also have "card \<dots> = card {p \<in> set xs. count_list xs p = 1}"
    by (intro card_image) (simp add: inj_on_def)
  finally show ?thesis .
qed

lemma rebuild_dict:
  "distinct (map fst (acc @ xs)) \<Longrightarrow> fold (\<lambda>kv d. setitem (fst kv) (snd kv) d) xs acc = acc @ xs"
proof (induction xs arbitrary: acc)
  case Nil
  then show ?case by simp
next
  case (Cons kv xs)
  then have "fst kv \<notin> set (map fst acc)" by auto
  then have "setitem (fst kv) (snd kv) acc = acc @ [kv]" by (simp add: setitem_fresh)
  moreover have "distinct (map fst ((acc @ [kv]) @ xs))" using Cons.prems by simp
  ultimately show ?case using Cons.IH[of "acc @ [kv]"] by simp
qed

lemma distinct_keys_sort:
  "distinct (map fst d) \<Longrightarrow> distinct (map fst (sort_key f d))"
  by (simp add: distinct_map)

section \<open>The claims about the filter\<close>

text \<open>
  The definitions that evaluating the method on the example tables unfolds.
\<close>

lemmas ex_defs = removeEmptyObservations_def example_raw_def example_trailing_def
  empty_observation_def indic_of_def example_columns_def bare_row_def drop_label_def
  labels_def raw_index_def

text \<open>
  Claim C5, as amended. Let removeEmptyObservations return normally on a raw table.
  Calling it again on the table it returned never changes that table, and the second
  call returns normally exactly when the rows that were kept carry the labels
  \<open>0, \<dots>, k - 1\<close>, that is when every removed row came after every kept row (in
  particular when no row was removed). Otherwise the second call raises
  \<^verbatim>\<open>KeyError\<close>: the kept rows have their old labels, and the loop looks the rows up
  under the labels \<open>0, \<dots>, k - 1\<close>.
\<close>

theorem refiltering_succeeds_iff_labels_consecutive:
  assumes "raw_index (h dataset)" "fst (removeEmptyObservations dataset h) = Inr t"
  shows "removeEmptyObservations t (snd (removeEmptyObservations dataset h)) =
     (if raw_index (snd (removeEmptyObservations dataset h) t) then Inr t else Inl KeyError,
      snd (removeEmptyObservations dataset h))"
proof -
  let ?indic = "indic_of (columns (h dataset))"
  let ?df' = "(h dataset)\<lparr>rows := filter (\<lambda>lr. \<not> empty_observation ?indic (snd lr)) (rows (h dataset))\<rparr>"
  let ?h1 = "h(dataset := ?df')"
  from returned_filter[OF assms]
  have t: "t = dataset" and first: "removeEmptyObservations dataset h = (Inr dataset, ?h1)"
    and c: "''review_count'' \<in> set (columns (h dataset)) \<or> rows (h dataset) = []"
    by simp_all
  have h1: "snd (removeEmptyObservations dataset h) = ?h1" using first by simp
  have same: "?h1(dataset := ?df') = ?h1" by simp
  have kept: "\<forall>lr \<in> set (rows ?df'). \<not> empty_observation ?indic (snd lr)" by simp
  have "sorted_wrt (<) (map fst (rows (h dataset)))"
    using assms(1) by (simp add: raw_index_def labels_def strict_sorted_iff)
  then have "sorted_wrt (<) (map fst (rows ?df'))"
    by (simp add: sorted_wrt_map sorted_wrt_filter)
  from upt_sublist_prefix[OF this]
  have pre: "set [0..<length (rows ?df')] \<subseteq> fst ` set (rows ?df') \<longleftrightarrow> raw_index ?df'"
    by (simp add: raw_index_def labels_def)
  have loop: "drop_loop ?indic [0..<length (rows ?df')] ?df' =
      (if raw_index ?df' then None else Some KeyError, ?df')"
  proof (cases "rows (h dataset) = []")
    case True
    then show ?thesis by (simp add: raw_index_def labels_def)
  next
    case False
    with c have "''review_count'' \<in> set (columns ?df')" by simp
    from drop_loop_kept[OF kept this, of "[0..<length (rows ?df')]"] pre
    show ?thesis by (simp only: )
  qed
  have "removeEmptyObservations dataset ?h1
      = (if raw_index ?df' then Inr dataset else Inl KeyError, ?h1(dataset := ?df'))"
    unfolding removeEmptyObservations_def Let_def using loop by simp
  then show ?thesis unfolding h1 t same by simp
qed

text \<open>
  In \<open>example_trailing\<close> the row with nothing is the last one: the two rows kept have
  the labels 0 and 1, and filtering again returns the same table.
\<close>

theorem refiltering_succeeds_iff_labels_consecutive_witness:
  "raw_index example_trailing
   \<and> fst (removeEmptyObservations 0 (\<lambda>_. example_trailing)) = Inr 0
   \<and> length (rows (snd (removeEmptyObservations 0 (\<lambda>_. example_trailing)) 0)) = 2
   \<and> removeEmptyObservations 0 (snd (removeEmptyObservations 0 (\<lambda>_. example_trailing)))
       = (Inr 0, snd (removeEmptyObservations 0 (\<lambda>_. example_trailing)))"
proof -
  have a: "raw_index ((\<lambda>_. example_trailing) (0::nat))"
    by (simp add: raw_index_def labels_def example_trailing_def upt_rec)
  have b: "fst (removeEmptyObservations 0 (\<lambda>_. example_trailing)) = Inr 0"
    by (simp add: ex_defs upt_rec)
  have c: "raw_index (snd (removeEmptyObservations 0 (\<lambda>_. example_trailing)) 0)"
    by (simp add: ex_defs upt_rec)
  have d: "length (rows (snd (removeEmptyObservations 0 (\<lambda>_. example_trailing)) 0)) = 2"
    by (simp add: ex_defs upt_rec)
  from refiltering_succeeds_iff_labels_consecutive[OF a b] c
  have "removeEmptyObservations 0 (snd (removeEmptyObservations 0 (\<lambda>_. example_trailing)))
       = (Inr 0, snd (removeEmptyObservations 0 (\<lambda>_. example_trailing)))"
    by simp
  with a b d show ?thesis by simp
qed

text \<open>
  Claim C5 as stated fails on \<open>example_raw\<close>: the first call removes row 0 and leaves
  the labels 1 and 2; the second call looks up label 0 and raises \<^verbatim>\<open>KeyError\<close>.
\<close>

theorem refiltering_fails_counterexample:
  "raw_index example_raw
   \<and> fst (removeEmptyObservations 0 (\<lambda>_. example_raw)) = Inr 0
   \<and> fst (removeEmptyObservations 0 (snd (removeEmptyObservations 0 (\<lambda>_. example_raw))))
       = Inl KeyError"
  by (simp add: ex_defs upt_rec)

text \<open>
  Claim C6, as amended. When removeEmptyObservations returns normally on a raw table,
  the table it returns has the column set of the input, and its rows are the rows of
  the input that the test of line 111 does not select, in their original order and
  each under its original index label (a row is the pair of its label and its
  contents): the result is not re-indexed.
\<close>

theorem removeEmptyObservations_keeps_columns_and_labels:
  assumes "raw_index (h dataset)" "fst (removeEmptyObservations dataset h) = Inr t"
  shows "columns (snd (removeEmptyObservations dataset h) t) = columns (h dataset)
     \<and> rows (snd (removeEmptyObservations dataset h) t) =
         filter (\<lambda>lr. \<not> empty_observation (indic_of (columns (h dataset))) (snd lr))
           (rows (h dataset))"
proof -
  let ?indic = "indic_of (columns (h dataset))"
  let ?df' = "(h dataset)\<lparr>rows := filter (\<lambda>lr. \<not> empty_observation ?indic (snd lr)) (rows (h dataset))\<rparr>"
  from returned_filter[OF assms]
  have t: "t = dataset" and first: "removeEmptyObservations dataset h = (Inr dataset, h(dataset := ?df'))"
    by simp_all
  have r: "snd (removeEmptyObservations dataset h) t = ?df'" using first t by simp
  show ?thesis unfolding r by simp
qed

text \<open>
  On \<open>example_raw\<close> the rows labelled 1 and 2 are returned, under these labels.
\<close>

theorem removeEmptyObservations_keeps_columns_and_labels_witness:
  "raw_index example_raw
   \<and> fst (removeEmptyObservations 0 (\<lambda>_. example_raw)) = Inr 0
   \<and> columns (snd (removeEmptyObservations 0 (\<lambda>_. example_raw)) 0) = example_columns
   \<and> rows (snd (removeEmptyObservations 0 (\<lambda>_. example_raw)) 0) =
       [(1, bare_row ''B'' 80 5), (2, (bare_row ''C'' 0 0)(''district'' := Str ''Praha 1''))]"
proof -
  have a: "raw_index ((\<lambda>_. example_raw) (0::nat))"
    by (simp add: raw_index_def labels_def example_raw_def upt_rec)
  have b: "fst (removeEmptyObservations 0 (\<lambda>_. example_raw)) = Inr 0"
    by (simp add: ex_defs upt_rec)
  have e: "empty_observation (indic_of example_columns) (bare_row ''A'' 0 0)"
    "\<not> empty_observation (indic_of example_columns) (bare_row ''B'' 80 5)"
    "\<not> empty_observation (indic_of example_columns) ((bare_row ''C'' 0 0)(''district'' := Str ''Praha 1''))"
    by (simp_all add: empty_observation_def indic_of_def example_columns_def bare_row_def)
  from removeEmptyObservations_keeps_columns_and_labels[OF a b]
  have "columns (snd (removeEmptyObservations 0 (\<lambda>_. example_raw)) 0) = example_columns
   \<and> rows (snd (removeEmptyObservations 0 (\<lambda>_. example_raw)) 0) =
       [(1, bare_row ''B'' 80 5), (2, (bare_row ''C'' 0 0)(''district'' := Str ''Praha 1''))]"
    using e by (simp add: example_raw_def)
  with a b show ?thesis by simp
qed

text \<open>
  Claim C6 as stated fails on \<open>example_raw\<close>: after the call the object that was
  passed in no longer holds the raw table, and the rows of the result are labelled 1
  and 2, not 0 and 1.
\<close>

theorem removeEmptyObservations_mutates_and_keeps_labels_counterexample:
  "raw_index example_raw
   \<and> fst (removeEmptyObservations 0 (\<lambda>_. example_raw)) = Inr 0
   \<and> snd (removeEmptyObservations 0 (\<lambda>_. example_raw)) 0 \<noteq> example_raw
   \<and> labels (snd (removeEmptyObservations 0 (\<lambda>_. example_raw)) 0) = [1, 2]
   \<and> \<not> raw_index (snd (removeEmptyObservations 0 (\<lambda>_. example_raw)) 0)"
proof -
  have "length (rows (snd (removeEmptyObservations 0 (\<lambda>_. example_raw)) 0)) = 2"
    by (simp add: ex_defs upt_rec)
  moreover have "length (rows example_raw) = 3" by (simp add: example_raw_def)
  ultimately have "snd (removeEmptyObservations 0 (\<lambda>_. example_raw)) 0 \<noteq> example_raw"
    by auto
  moreover have "raw_index example_raw
   \<and> fst (removeEmptyObservations 0 (\<lambda>_. example_raw)) = Inr 0
   \<and> labels (snd (removeEmptyObservations 0 (\<lambda>_. example_raw)) 0) = [1, 2]
   \<and> \<not> raw_index (snd (removeEmptyObservations 0 (\<lambda>_. example_raw)) 0)"
    by (simp add: ex_defs upt_rec)
  ultimately show ?thesis by simp
qed

section \<open>The claims about the aggregates and the row viewer\<close>

text \<open>
  Claim C1, as amended. For an address of the form \<open>pre @ mid . post\<close> with no \<open>@\<close> in
  \<open>pre\<close>, no newline in \<open>mid\<close> and no dot in \<open>post\<close>, the provider extracted is \<open>mid\<close>:
  the match runs from the first \<open>@\<close> to the last dot after it, and the \<open>@\<close> and that
  dot are stripped. The loop of getEmailProvidersCounts appends this provider for the
  row and goes on. So \<^verbatim>\<open>foo@example.com\<close> gives \<^verbatim>\<open>example\<close> and
  \<^verbatim>\<open>foo@sub.example.co.uk\<close> gives \<^verbatim>\<open>sub.example.co\<close>.
\<close>

theorem provider_is_between_at_and_last_dot:
  assumes "CHR ''@'' \<notin> set pre" "CHR 0x0A \<notin> set mid" "CHR ''.'' \<notin> set post"
  shows "find_provider (pre @ ''@'' @ mid @ ''.'' @ post) = Inr mid
       \<and> email_loop (Some (pre @ ''@'' @ mid @ ''.'' @ post) # rest) email_providers
           = email_loop rest (email_providers @ [mid])"
proof -
  have "find_provider (pre @ ''@'' @ mid @ ''.'' @ post) = Inr mid"
    unfolding find_provider_def re_search_last_dot[OF assms] by simp
  then show ?thesis by simp
qed

text \<open>
  The address \<^verbatim>\<open>foo@sub.example.co.uk\<close>.
\<close>

theorem provider_is_between_at_and_last_dot_witness:
  "CHR ''@'' \<notin> set ''foo'' \<and> CHR 0x0A \<notin> set ''sub.example.co'' \<and> CHR ''.'' \<notin> set ''uk''
   \<and> find_provider ''foo@sub.example.co.uk'' = Inr ''sub.example.co''
   \<and> email_loop [Some ''foo@sub.example.co.uk''] [] = Inr [''sub.example.co'']"
  using provider_is_between_at_and_last_dot[of "''foo''" "''sub.example.co''" "''uk''" "[]" "[]"]
  by simp

text \<open>
  Claim C1 as stated fails on \<^verbatim>\<open>foo@example.com\<close>: the provider is \<^verbatim>\<open>example\<close>,
  not \<^verbatim>\<open>example.com\<close>.
\<close>

theorem provider_of_example_com_counterexample:
  "email_loop [Some ''foo@example.com''] [] = Inr [''example'']
   \<and> email_loop [Some ''foo@example.com''] [] \<noteq> Inr [''example.com'']
   \<and> getEmailProvidersCounts [Some ''foo@example.com''] = Inr [(''example'', 1), (''Own domain'', 1)]"
  by (simp add: find_provider_def match_here_def getEmailProvidersCounts_def Counter_def count_elem_def)

text \<open>
  Claim C4. The claim is that a present address without a match of the pattern is
  skipped. On the one-row column with the address \<^verbatim>\<open>foo@localhost\<close> the method
  raises \<^verbatim>\<open>AttributeError\<close> instead: the handler catches \<^verbatim>\<open>ValueError\<close> only.
\<close>

theorem getEmailProvidersCounts_no_match_raises:
  "getEmailProvidersCounts [Some ''foo@localhost''] = Inl AttributeError"
  by (simp add: getEmailProvidersCounts_def find_provider_def match_here_def)

text \<open>
  Claim C9. Whenever the loop over the addresses ends normally with the list
  \<open>email_providers\<close>, getEmailProvidersCounts returns a dictionary in which the value
  under \<^verbatim>\<open>Own domain\<close> is the number of distinct providers that occur exactly once
  in that list, and whose entries are in ascending order of their counts.
\<close>

theorem own_domain_counts_single_providers:
  assumes "email_loop email_address [] = Inr email_providers"
  shows "\<exists>d. getEmailProvidersCounts email_address = Inr d
     \<and> map_of d ''Own domain''
         = Some (int (card {p \<in> set email_providers. count_list email_providers p = 1}))
     \<and> sorted (map snd d)"
proof -
  let ?c = "Counter email_providers"
  let ?w = "setitem ''Own domain'' (int (count_list (map snd ?c) 1)) ?c"
  let ?s = "sort_key snd ?w"
  have dc: "distinct (map fst ?c)" by (rule distinct_Counter)
  have dw: "distinct (map fst ?w)" using dc by (rule distinct_setitem)
  have ds: "distinct (map fst ?s)" using dw by (rule distinct_keys_sort)
  have r: "getEmailProvidersCounts email_address = Inr ?s"
    using assms rebuild_dict[of "[]" ?s] ds by (simp add: getEmailProvidersCounts_def Let_def)
  have "map_of ?s = map_of ?w"
    using ds dw by (simp add: map_of_inject_set)
  then have "map_of ?s ''Own domain'' = Some (int (count_list (map snd ?c) 1))"
    by (simp add: map_of_setitem)
  then have o: "map_of ?s ''Own domain''
      = Some (int (card {p \<in> set email_providers. count_list email_providers p = 1}))"
    by (simp only: count_of_ones)
  have "sorted (map snd ?s)" by (rule sorted_sort_key)
  with r o show ?thesis by blast
qed

text \<open>
  Three addresses and a missing one: \<^verbatim>\<open>x\<close> occurs twice and \<^verbatim>\<open>y\<close> once.
\<close>

theorem own_domain_counts_single_providers_witness:
  "email_loop [Some ''a@x.cz'', None, Some ''b@y.cz'', Some ''c@x.cz''] [] = Inr [''x'', ''y'', ''x'']
   \<and> getEmailProvidersCounts [Some ''a@x.cz'', None, Some ''b@y.cz'', Some ''c@x.cz'']
       = Inr [(''y'', 1), (''Own domain'', 1), (''x'', 2)]
   \<and> (\<exists>d. getEmailProvidersCounts [Some ''a@x.cz'', None, Some ''b@y.cz'', Some ''c@x.cz''] = Inr d
     \<and> map_of d ''Own domain'' = Some 1 \<and> sorted (map snd d))"
proof -
  have a: "email_loop [Some ''a@x.cz'', None, Some ''b@y.cz'', Some ''c@x.cz''] [] = Inr [''x'', ''y'', ''x'']"
    by (simp add: find_provider_def match_here_def)
  have b: "getEmailProvidersCounts [Some ''a@x.cz'', None, Some ''b@y.cz'', Some ''c@x.cz'']
       = Inr [(''y'', 1), (''Own domain'', 1), (''x'', 2)]"
    unfolding getEmailProvidersCounts_def a by (simp add: Counter_def count_elem_def)
  have "{p \<in> set [''x'', ''y'', ''x'']. count_list [''x'', ''y'', ''x''] p = 1} = {''y''}"
    by auto
  then have c: "card {p \<in> set [''x'', ''y'', ''x'']. count_list [''x'', ''y'', ''x''] p = 1} = 1"
    by simp
  from own_domain_counts_single_providers[OF a] c
  have "\<exists>d. getEmailProvidersCounts [Some ''a@x.cz'', None, Some ''b@y.cz'', Some ''c@x.cz''] = Inr d
     \<and> map_of d ''Own domain'' = Some 1 \<and> sorted (map snd d)"
    by simp
  with a b show ?thesis by simp
qed

text \<open>
  Claim C10. When the argument converts to an integer \<open>n\<close> whose absolute value
  exceeds the number of rows, showRows returns the whole table, all rows in their
  stored order, for positive and for negative \<open>n\<close> alike.
\<close>

theorem showRows_beyond_row_count:
  assumes "to_int no_of_rows = Some n" "int (length (rows dataset)) < \<bar>n\<bar>"
  shows "showRows to_int dataset no_of_rows = Inr dataset"
proof -
  have same: "dataset\<lparr>rows := rows dataset\<rparr> = dataset" by (cases dataset) simp
  show ?thesis
  proof (cases "0 \<le> n")
    case True
    with assms(2) have "take (nat n) (rows dataset) = rows dataset" by simp
    then show ?thesis using True assms(1) by (simp add: showRows_def df_head_def same)
  next
    case False
    with assms(2) have "nat (max 0 (int (length (rows dataset)) - \<bar>n\<bar>)) = 0" "\<bar>n\<bar> \<noteq> 0" "0 < \<bar>n\<bar>"
      by simp_all
    then show ?thesis using False assms(1) by (simp add: showRows_def df_tail_def same)
  qed
qed

text \<open>
  The three-row table with \<open>n = 5\<close> and with \<open>n = - 4\<close>.
\<close>

theorem showRows_beyond_row_count_witness:
  "Some (5::int) = Some 5 \<and> int (length (rows example_raw)) < \<bar>5\<bar>
   \<and> showRows Some example_raw (5::int) = Inr example_raw
   \<and> Some (- 4::int) = Some (- 4) \<and> int (length (rows example_raw)) < \<bar>- 4\<bar>
   \<and> showRows Some example_raw (- 4::int) = Inr example_raw"
proof -
  have l: "int (length (rows example_raw)) < \<bar>5\<bar>" "int (length (rows example_raw)) < \<bar>- 4\<bar>"
    by (simp_all add: example_raw_def)
  from showRows_beyond_row_count[of Some 5 5 example_raw, OF refl l(1)]
    showRows_beyond_row_count[of Some "- 4" "- 4" example_raw, OF refl l(2)] l
  show ?thesis by simp
qed

text \<open>
  Claim C3. The claim is that the exclusion of \<^verbatim>\<open>Not found\<close> is a no-op when no row
  has that district. On a district column without it the method raises
  \<^verbatim>\<open>KeyError\<close> instead.
\<close>

theorem getDistrictCounts_without_not_found_raises:
  "getDistrictCounts [Some ''Praha 1'', None, Some ''Praha 2'', Some ''Praha 1''] = Inl KeyError"
  by (simp add: getDistrictCounts_def series_drop_def value_counts_def Counter_def count_elem_def
      List.map_filter_simps)

text \<open>
  When some row has no mapping the array is an array of floats: the method returns
  one entry per row, and a sum of 0 is recorded as missing.
\<close>

lemma getArrayOfSumsOfOpeningHoursSpans_with_missing_row:
  assumes "None \<in> set opening_hours_span"
  shows "getArrayOfSumsOfOpeningHoursSpans opening_hours_span =
     Inr (map (\<lambda>dict. case dict of
                 None \<Rightarrow> nan
               | Some d \<Rightarrow> if sum_of_spans d = 0 then nan else number (sum_of_spans d))
            opening_hours_span)"
proof -
  let ?f = "\<lambda>dict. case dict of None \<Rightarrow> nan | Some d \<Rightarrow> number (sum_of_spans d)"
  have "?f None \<in> ?f ` set opening_hours_span" using assms by (rule imageI)
  then have "nan \<in> set (map ?f opening_hours_span)" by simp
  then show ?thesis
    by (auto simp: getArrayOfSumsOfOpeningHoursSpans_def Let_def split: option.splits)
qed

text \<open>
  Claim C8. The claim is that a row whose durations sum to 0 is recorded as missing.
  On a one-row column whose mapping sums to 0 the list of sums is \<open>[0]\<close>, the array
  is an array of integers, and the method raises \<^verbatim>\<open>ValueError\<close> instead of
  returning an array.
\<close>

theorem getArrayOfSumsOfOpeningHoursSpans_all_present_raises:
  "getArrayOfSumsOfOpeningHoursSpans [Some [(''Monday'', None), (''Tuesday'', Some 0)]]
     = Inl ValueError"
  by (simp add: getArrayOfSumsOfOpeningHoursSpans_def sum_of_spans_def truthy_def
      List.map_filter_simps)

text \<open>
  Claim C7. The claim is that rows without reviews contribute to no rating statistic.
  In \<open>example_reviews\<close> the lowest rating among the reviewed rows is 0 and one reviewed
  row has it, but the count reported with it is 2: the row without reviews, rated 0,
  is counted as well.
\<close>

theorem interpretReviewsAndRatings_counts_unreviewed_rows:
  "map_sum id lowest_rating (interpretReviewsAndRatings example_reviews) = Inr 0
   \<and> map_sum id lowest_rating_rows (interpretReviewsAndRatings example_reviews) = Inr 2
   \<and> length (filter (\<lambda>r. review_count r \<noteq> 0 \<and> ratings r = 0) example_reviews) = 1"
  by (simp add: interpretReviewsAndRatings_def example_reviews_def)

end
